theory Spec2Isabelle
  imports Complex_Main
begin

section \<open>Host geometry objects read by the script\<close>

text \<open>
  The script works on objects of the host application.  Only the members the script
  reads are kept.  Python floats are idealised as reals; \<open>float('inf')\<close>, the
  start value of the running minimum, is a value of its own.
\<close>

record XYZ =
  X :: real
  Y :: real
  Z :: real

record UV =
  U :: real
  V :: real

record BoundingBoxXYZ =
  Min_pt :: XYZ
  Max_pt :: XYZ

record IntersectionResult =
  Distance :: real

text \<open>
  A face: \<open>Project\<close> gives no result (Python \<open>None\<close>) where the projection is
  undefined; \<open>is_PlanarFace\<close> is \<open>isinstance(face, DB.PlanarFace)\<close>; \<open>face_Id\<close>
  is the identity of the object.
\<close>

record Face =
  face_Id :: nat
  is_PlanarFace :: bool
  Project :: "XYZ \<Rightarrow> IntersectionResult option"
  Evaluate :: "UV \<Rightarrow> XYZ"
  ComputeNormal :: "UV \<Rightarrow> XYZ"
  Reference :: "nat option"

text \<open>A geometry object is a solid with its faces, or an object of another class.\<close>

datatype GeometryObject = Solid "Face list" | NonSolid string

fun is_Solid :: "GeometryObject \<Rightarrow> bool" where
  "is_Solid (Solid faces) = True"
| "is_Solid (NonSolid cls) = False"

datatype pyfloat = FloatInf | Float real

text \<open>\<open>d < m\<close> and \<open>m > t\<close> for a finite \<open>d\<close>, \<open>t\<close> and a running minimum \<open>m\<close>.\<close>

fun float_lt :: "real \<Rightarrow> pyfloat \<Rightarrow> bool" where
  "float_lt d FloatInf = True"
| "float_lt d (Float m) = (d < m)"

fun float_gt :: "pyfloat \<Rightarrow> real \<Rightarrow> bool" where
  "float_gt FloatInf t = True"
| "float_gt (Float m) t = (m > t)"

subsection \<open>Vector operations of the host\<close>



definition Subtract :: "XYZ \<Rightarrow> XYZ \<Rightarrow> XYZ" where
  "Subtract a b = \<lparr>X = X a - X b, Y = Y a - Y b, Z = Z a - Z b\<rparr>"

definition DotProduct :: "XYZ \<Rightarrow> XYZ \<Rightarrow> real" where
  "DotProduct a b = X a * X b + Y a * Y b + Z a * Z b"


definition GetLength :: "XYZ \<Rightarrow> real" where
  "GetLength a = sqrt (X a * X a + Y a * Y a + Z a * Z a)"

definition IsZeroLength :: "XYZ \<Rightarrow> bool" where
  "IsZeroLength a = (X a = 0 \<and> Y a = 0 \<and> Z a = 0)"

definition Normalize :: "XYZ \<Rightarrow> XYZ" where
  "Normalize a =
     (if IsZeroLength a then a
      else \<lparr>X = X a / GetLength a, Y = Y a / GetLength a, Z = Z a / GetLength a\<rparr>)"

section \<open>Errors and loops\<close>

datatype error = AttributeError | TypeError

text \<open>\<open>if proj:\<close> holds for every object but \<open>None\<close>.\<close>

definition truthy :: "'a option \<Rightarrow> bool" where
  "truthy v = (v \<noteq> None)"

text \<open>\<open>proj.Distance\<close>: reading an attribute of \<open>None\<close> raises.\<close>

fun get_Distance :: "IntersectionResult option \<Rightarrow> error + real" where
  "get_Distance None = Inl AttributeError"
| "get_Distance (Some r) = Inr (Distance r)"

text \<open>
  \<open>for x in xs: body\<close> over a state; an exception raised by the body ends the loop
  and is the result.
\<close>

fun for_each :: "('a \<Rightarrow> 's \<Rightarrow> error + 's) \<Rightarrow> 'a list \<Rightarrow> 's \<Rightarrow> error + 's" where
  "for_each body [] st = Inr st"
| "for_each body (x # xs) st =
     (case body x st of Inl e \<Rightarrow> Inl e | Inr st' \<Rightarrow> for_each body xs st')"

section \<open>Bounding boxes\<close>

definition do_bounding_boxes_intersect :: "BoundingBoxXYZ \<Rightarrow> BoundingBoxXYZ \<Rightarrow> bool" where
  "do_bounding_boxes_intersect bbox1 bbox2 =
     (X (Min_pt bbox1) \<le> X (Max_pt bbox2) \<and> X (Max_pt bbox1) \<ge> X (Min_pt bbox2) \<and>
      Y (Min_pt bbox1) \<le> Y (Max_pt bbox2) \<and> Y (Max_pt bbox1) \<ge> Y (Min_pt bbox2) \<and>
      Z (Min_pt bbox1) \<le> Z (Max_pt bbox2) \<and> Z (Max_pt bbox1) \<ge> Z (Min_pt bbox2))"

text \<open>A box is well formed when its \<open>Min\<close> is componentwise below its \<open>Max\<close>.\<close>

definition well_formed_bbox :: "BoundingBoxXYZ \<Rightarrow> bool" where
  "well_formed_bbox b =
     (X (Min_pt b) \<le> X (Max_pt b) \<and> Y (Min_pt b) \<le> Y (Max_pt b) \<and> Z (Min_pt b) \<le> Z (Max_pt b))"

section \<open>The face matchers\<close>

type_synonym match_state = "Face option \<times> pyfloat"

subsection \<open>\<open>find_intersecting_face_based_on_far_end\<close>\<close>

text \<open>Lines 46 to 48: the tolerance, scaled by the nominal diameter of the equipment.\<close>

definition far_end_tolerance :: "BoundingBoxXYZ \<Rightarrow> real \<Rightarrow> real" where
  "far_end_tolerance equip_bbox base_tolerance =
     (let diameter = max (X (Max_pt equip_bbox) - X (Min_pt equip_bbox))
                         (Y (Max_pt equip_bbox) - Y (Min_pt equip_bbox));
          threshold = 3937 / 10000
      in if diameter > threshold then base_tolerance * (diameter / threshold)
         else base_tolerance)"

text \<open>Lines 55 to 60: the body of the loop over the faces of a solid.\<close>

definition far_end_face_body :: "real \<Rightarrow> XYZ \<Rightarrow> Face \<Rightarrow> match_state \<Rightarrow> error + match_state" where
  "far_end_face_body tolerance far_end_point face st =
     (case st of (closest_face, min_distance) \<Rightarrow>
        (let proj = Project face far_end_point in
         if truthy proj then
           (case get_Distance proj of
              Inl e \<Rightarrow> Inl e
            | Inr distance \<Rightarrow>
                if float_lt distance min_distance \<and> distance \<le> tolerance
                then Inr (Some face, Float distance)
                else Inr (closest_face, min_distance))
         else Inr (closest_face, min_distance)))"

text \<open>Lines 52 to 54: only a solid has its faces looked at.\<close>

definition for_each_solid_face ::
  "(Face \<Rightarrow> match_state \<Rightarrow> error + match_state) \<Rightarrow> GeometryObject \<Rightarrow> match_state \<Rightarrow> error + match_state" where
  "for_each_solid_face body geo_obj st =
     (case geo_obj of Solid faces \<Rightarrow> for_each body faces st | NonSolid cls \<Rightarrow> Inr st)"

definition find_intersecting_face_based_on_far_end ::
  "GeometryObject list \<Rightarrow> XYZ \<Rightarrow> BoundingBoxXYZ \<Rightarrow> real \<Rightarrow> error + Face option" where
  "find_intersecting_face_based_on_far_end geo_element far_end_point equip_bbox base_tolerance =
     (let tolerance = far_end_tolerance equip_bbox base_tolerance in
      case for_each (for_each_solid_face (far_end_face_body tolerance far_end_point))
             geo_element (None, FloatInf) of
        Inl e \<Rightarrow> Inl e
      | Inr (closest_face, min_distance) \<Rightarrow> Inr closest_face)"

subsection \<open>\<open>find_intersecting_face\<close>\<close>

text \<open>Lines 69 to 73: the body of the first loop; the tolerance plays no part in it.\<close>

definition primary_face_body :: "XYZ \<Rightarrow> Face \<Rightarrow> match_state \<Rightarrow> error + match_state" where
  "primary_face_body point face st =
     (case st of (closest_face, min_distance) \<Rightarrow>
        (let proj = Project face point in
         if truthy proj then
           (case get_Distance proj of
              Inl e \<Rightarrow> Inl e
            | Inr distance \<Rightarrow>
                if float_lt distance min_distance
                then Inr (Some face, Float distance)
                else Inr (closest_face, min_distance))
         else Inr (closest_face, min_distance)))"

text \<open>Lines 64 to 73: the first loop.\<close>

definition primary_pass :: "GeometryObject list \<Rightarrow> XYZ \<Rightarrow> error + match_state" where
  "primary_pass geo_element point =
     for_each (for_each_solid_face (primary_face_body point)) geo_element (None, FloatInf)"

text \<open>Line 74: the test that opens the second loop.\<close>

definition needs_fallback :: "Face option \<Rightarrow> pyfloat \<Rightarrow> real \<Rightarrow> bool" where
  "needs_fallback closest_face min_distance tolerance =
     (closest_face = None \<or> float_gt min_distance tolerance)"

text \<open>Line 75: sixteen samples, \<open>u\<close> outermost.\<close>

definition sample_uvs :: "UV list" where
  "sample_uvs =
     concat (map (\<lambda>u. map (\<lambda>v. \<lparr>U = u, V = v\<rparr>) [2/10, 4/10, 6/10, 8/10])
                 [2/10, 4/10, 6/10, 8/10])"

text \<open>Lines 81 to 83: the distance of the point from the tangent plane at a sample.\<close>

definition sample_distance :: "XYZ \<Rightarrow> Face \<Rightarrow> UV \<Rightarrow> real" where
  "sample_distance point face uv =
     (let sample_pt = Evaluate face uv;
          normal = ComputeNormal face uv
      in \<bar>DotProduct (Subtract point sample_pt) normal\<bar>)"

text \<open>Lines 81 to 86: the body of the loop over the samples of a face.\<close>

definition fallback_sample_body :: "XYZ \<Rightarrow> real \<Rightarrow> Face \<Rightarrow> UV \<Rightarrow> match_state \<Rightarrow> match_state" where
  "fallback_sample_body point tolerance face uv st =
     (case st of (closest_face, min_distance) \<Rightarrow>
        (let dist = sample_distance point face uv in
         if dist < tolerance \<and> float_lt dist min_distance
         then (Some face, Float dist)
         else (closest_face, min_distance)))"

text \<open>Lines 78 to 86: only a planar face is sampled.\<close>

definition fallback_face_body :: "XYZ \<Rightarrow> real \<Rightarrow> Face \<Rightarrow> match_state \<Rightarrow> match_state" where
  "fallback_face_body point tolerance face st =
     (if is_PlanarFace face then fold (fallback_sample_body point tolerance face) sample_uvs st
      else st)"

text \<open>Lines 76 to 86: the second loop, started from the state the first loop left.\<close>

definition fallback_pass :: "GeometryObject list \<Rightarrow> XYZ \<Rightarrow> real \<Rightarrow> match_state \<Rightarrow> match_state" where
  "fallback_pass geo_element point tolerance st =
     fold (\<lambda>geo_obj st'. case geo_obj of
               Solid faces \<Rightarrow> fold (fallback_face_body point tolerance) faces st'
             | NonSolid cls \<Rightarrow> st')
          geo_element st"

definition find_intersecting_face :: "GeometryObject list \<Rightarrow> XYZ \<Rightarrow> real \<Rightarrow> error + Face option" where
  "find_intersecting_face geo_element point tolerance =
     (case primary_pass geo_element point of
        Inl e \<Rightarrow> Inl e
      | Inr (closest_face, min_distance) \<Rightarrow>
          if needs_fallback closest_face min_distance tolerance
          then Inr (fst (fallback_pass geo_element point tolerance (closest_face, min_distance)))
          else Inr closest_face)"

section \<open>Placement\<close>




section \<open>Faces in the order the loops meet them\<close>

fun faces_of :: "GeometryObject \<Rightarrow> Face list" where
  "faces_of (Solid faces) = faces"
| "faces_of (NonSolid cls) = []"

definition enumerated_faces :: "GeometryObject list \<Rightarrow> Face list" where
  "enumerated_faces geo_element = concat (map faces_of geo_element)"

section \<open>The loops as scans over candidates\<close>

text \<open>
  Each loop keeps a closest face and a running minimum and replaces both when a
  candidate distance is below the minimum and passes the loop's test.  The lemmas of
  this section reduce the three loops to one scan over the list of candidates, in the
  order the loops meet them.
\<close>

definition upd :: "(real \<Rightarrow> bool) \<Rightarrow> Face \<times> real \<Rightarrow> match_state \<Rightarrow> match_state" where
  "upd ok c st =
     (if float_lt (snd c) (snd st) \<and> ok (snd c) then (Some (fst c), Float (snd c)) else st)"

definition scan :: "(real \<Rightarrow> bool) \<Rightarrow> (Face \<times> real) list \<Rightarrow> match_state \<Rightarrow> match_state" where
  "scan ok cands st = fold (upd ok) cands st"

definition proj_cands :: "XYZ \<Rightarrow> Face list \<Rightarrow> (Face \<times> real) list" where
  "proj_cands p fs =
     concat (map (\<lambda>f. case Project f p of None \<Rightarrow> [] | Some r \<Rightarrow> [(f, Distance r)]) fs)"

definition sample_cands :: "XYZ \<Rightarrow> Face list \<Rightarrow> (Face \<times> real) list" where
  "sample_cands p fs =
     concat (map (\<lambda>f. if is_PlanarFace f then map (\<lambda>uv. (f, sample_distance p f uv)) sample_uvs else []) fs)"

section \<open>Example geometry\<close>

text \<open>
  A horizontal planar face in the plane \<open>z = h\<close>: a point projects straight down or up
  on it, and every sample has the normal \<open>(0, 0, 1)\<close>.
\<close>

definition horizontal_face :: "nat \<Rightarrow> real \<Rightarrow> Face" where
  "horizontal_face i h =
     \<lparr>face_Id = i, is_PlanarFace = True,
      Project = (\<lambda>p. Some \<lparr>Distance = \<bar>Z p - h\<bar>\<rparr>),
      Evaluate = (\<lambda>uv. \<lparr>X = U uv, Y = V uv, Z = h\<rparr>),
      ComputeNormal = (\<lambda>uv. \<lparr>X = 0, Y = 0, Z = 1\<rparr>),
      Reference = Some i\<rparr>"

definition origin :: XYZ where
  "origin = \<lparr>X = 0, Y = 0, Z = 0\<rparr>"

definition unit_box :: BoundingBoxXYZ where
  "unit_box = \<lparr>Min_pt = \<lparr>X = 0, Y = 0, Z = 0\<rparr>, Max_pt = \<lparr>X = 1, Y = 1, Z = 1\<rparr>\<rparr>"


text \<open>
  A curved face, the sheet \<open>z = x\<^sup>2\<close>, on which the host finds no projection of any
  point.
\<close>

definition curved_face :: "nat \<Rightarrow> Face" where
  "curved_face i =
     \<lparr>face_Id = i, is_PlanarFace = False,
      Project = (\<lambda>p. None),
      Evaluate = (\<lambda>uv. \<lparr>X = U uv, Y = V uv, Z = U uv * U uv\<rparr>),
      ComputeNormal = (\<lambda>uv. Normalize \<lparr>X = - 2 * U uv, Y = 0, Z = 1\<rparr>),
      Reference = Some i\<rparr>"


definition small_box :: BoundingBoxXYZ where
  "small_box = \<lparr>Min_pt = \<lparr>X = 0, Y = 0, Z = 0\<rparr>, Max_pt = \<lparr>X = 3/10, Y = 2/10, Z = 1\<rparr>\<rparr>"

definition double_box :: BoundingBoxXYZ where
  "double_box = \<lparr>Min_pt = \<lparr>X = 0, Y = 0, Z = 0\<rparr>, Max_pt = \<lparr>X = 2, Y = 1, Z = 1\<rparr>\<rparr>"




text \<open>The default of the tolerance parameters of both matchers.\<close>

definition default_tolerance :: real where
  "default_tolerance = 2/10"

text \<open>Horizontal faces at several heights, named by their distance from the origin.\<close>

definition face_near :: Face where
  "face_near = horizontal_face 11 (1/10)"

definition face_tie :: Face where
  "face_tie = horizontal_face 12 (- 1/10)"

definition face_mid :: Face where
  "face_mid = horizontal_face 13 (15/100)"

definition face_three_tenths :: Face where
  "face_three_tenths = horizontal_face 14 (3/10)"

definition face_half :: Face where
  "face_half = horizontal_face 15 (1/2)"

definition face_far :: Face where
  "face_far = horizontal_face 16 1"

definition face_five :: Face where
  "face_five = horizontal_face 17 5"

definition sheet :: Face where
  "sheet = curved_face 18"


text \<open>The faces above with their planarity forgotten.\<close>

definition as_curved :: "Face \<Rightarrow> Face" where
  "as_curved f = f\<lparr>is_PlanarFace := False\<rparr>"

section \<open>The tolerance in the words of the specification\<close>

text \<open>
  The nominal diameter is the larger of the X-extent and the Y-extent of the box; the
  reference threshold is 120 mm in feet; above it the tolerance grows with the diameter.
\<close>

definition nominal_diameter :: "BoundingBoxXYZ \<Rightarrow> real" where
  "nominal_diameter b = max (X (Max_pt b) - X (Min_pt b)) (Y (Max_pt b) - Y (Min_pt b))"

definition reference_threshold :: real where
  "reference_threshold = 3937 / 10000"

definition effective_tolerance :: "real \<Rightarrow> BoundingBoxXYZ \<Rightarrow> real" where
  "effective_tolerance base_tolerance b =
     (if nominal_diameter b > reference_threshold
      then base_tolerance * (nominal_diameter b / reference_threshold)
      else base_tolerance)"

section \<open>Replacing the faces of a geometry\<close>

fun map_faces :: "(Face \<Rightarrow> Face) \<Rightarrow> GeometryObject \<Rightarrow> GeometryObject" where
  "map_faces h (Solid faces) = Solid (map h faces)"
| "map_faces h (NonSolid cls) = NonSolid cls"

text \<open>A geometry without the faces on which a point has no projection.\<close>

fun without_failing_projection :: "XYZ \<Rightarrow> GeometryObject \<Rightarrow> GeometryObject" where
  "without_failing_projection p (Solid faces) = Solid (filter (\<lambda>f. Project f p \<noteq> None) faces)"
| "without_failing_projection p (NonSolid cls) = NonSolid cls"

section \<open>Properties of the scan\<close>

lemma scan_Nil [simp]: "scan ok [] st = st"
  by (simp add: scan_def)

lemma scan_Cons [simp]: "scan ok (c # cs) st = scan ok cs (upd ok c st)"
  by (simp add: scan_def)

lemma scan_append [simp]: "scan ok (as @ bs) st = scan ok bs (scan ok as st)"
  by (simp add: scan_def)

lemma proj_cands_Nil [simp]: "proj_cands p [] = []"
  by (simp add: proj_cands_def)

lemma proj_cands_Cons:
  "proj_cands p (f # fs) =
     (case Project f p of None \<Rightarrow> [] | Some r \<Rightarrow> [(f, Distance r)]) @ proj_cands p fs"
  by (simp add: proj_cands_def)

lemma proj_cands_append [simp]: "proj_cands p (as @ bs) = proj_cands p as @ proj_cands p bs"
  by (simp add: proj_cands_def)

lemma sample_cands_Nil [simp]: "sample_cands p [] = []"
  by (simp add: sample_cands_def)

lemma sample_cands_Cons:
  "sample_cands p (f # fs) =
     (if is_PlanarFace f then map (\<lambda>uv. (f, sample_distance p f uv)) sample_uvs else [])
       @ sample_cands p fs"
  by (simp add: sample_cands_def)

lemma sample_cands_append [simp]:
  "sample_cands p (as @ bs) = sample_cands p as @ sample_cands p bs"
  by (simp add: sample_cands_def)

lemma enumerated_faces_Nil [simp]: "enumerated_faces [] = []"
  by (simp add: enumerated_faces_def)

lemma enumerated_faces_Cons [simp]:
  "enumerated_faces (g # gs) = faces_of g @ enumerated_faces gs"
  by (simp add: enumerated_faces_def)

lemma far_end_face_body_upd:
  "far_end_face_body tol p f st = Inr (scan (\<lambda>d. d \<le> tol) (proj_cands p [f]) st)"
  by (cases st; cases "Project f p")
     (simp_all add: far_end_face_body_def truthy_def proj_cands_Cons upd_def)

lemma primary_face_body_upd:
  "primary_face_body p f st = Inr (scan (\<lambda>d. True) (proj_cands p [f]) st)"
  by (cases st; cases "Project f p")
     (simp_all add: primary_face_body_def truthy_def proj_cands_Cons upd_def)

lemma faces_scan:
  assumes "\<And>f st. body f st = Inr (scan ok (proj_cands p [f]) st)"
  shows "for_each body fs st = Inr (scan ok (proj_cands p fs) st)"
proof (induction fs arbitrary: st)
  case Nil
  show ?case by simp
next
  case (Cons f fs)
  have "proj_cands p (f # fs) = proj_cands p [f] @ proj_cands p fs"
    by (simp add: proj_cands_Cons)
  then show ?case
    by (simp add: assms [of f st] Cons.IH)
qed

lemmas far_end_faces_scan = faces_scan [OF far_end_face_body_upd]
lemmas primary_faces_scan = faces_scan [OF primary_face_body_upd]

lemma solids_scan:
  assumes "\<And>fs st. for_each body fs st = Inr (scan ok (proj_cands p fs) st)"
  shows "for_each (for_each_solid_face body) geo st
           = Inr (scan ok (proj_cands p (enumerated_faces geo)) st)"
proof (induction geo arbitrary: st)
  case Nil
  show ?case by simp
next
  case (Cons g geo)
  have "for_each_solid_face body g st = Inr (scan ok (proj_cands p (faces_of g)) st)"
    by (cases g) (simp_all add: for_each_solid_face_def assms)
  then show ?case
    by (simp add: Cons.IH)
qed

lemma far_end_scan:
  "find_intersecting_face_based_on_far_end geo p bb base
     = Inr (fst (scan (\<lambda>d. d \<le> far_end_tolerance bb base) (proj_cands p (enumerated_faces geo))
                  (None, FloatInf)))"
  by (simp add: find_intersecting_face_based_on_far_end_def solids_scan [OF far_end_faces_scan]
        split: prod.splits)

lemma primary_pass_scan:
  "primary_pass geo p = Inr (scan (\<lambda>d. True) (proj_cands p (enumerated_faces geo)) (None, FloatInf))"
  by (simp add: primary_pass_def solids_scan [OF primary_faces_scan])

lemma fallback_samples_scan:
  "fold (fallback_sample_body p tol f) uvs st
     = scan (\<lambda>d. d < tol) (map (\<lambda>uv. (f, sample_distance p f uv)) uvs) st"
proof (induction uvs arbitrary: st)
  case Nil
  show ?case by simp
next
  case (Cons uv uvs)
  have "fallback_sample_body p tol f uv st = upd (\<lambda>d. d < tol) (f, sample_distance p f uv) st"
    by (cases st) (auto simp: fallback_sample_body_def upd_def)
  then show ?case
    by (simp add: Cons.IH)
qed

lemma fallback_faces_scan:
  "fold (fallback_face_body p tol) fs st = scan (\<lambda>d. d < tol) (sample_cands p fs) st"
proof (induction fs arbitrary: st)
  case Nil
  show ?case by simp
next
  case (Cons f fs)
  have "fallback_face_body p tol f st = scan (\<lambda>d. d < tol) (sample_cands p [f]) st"
    by (simp add: fallback_face_body_def fallback_samples_scan sample_cands_Cons)
  moreover have "sample_cands p (f # fs) = sample_cands p [f] @ sample_cands p fs"
    by (simp add: sample_cands_Cons)
  ultimately show ?case
    by (simp add: Cons.IH)
qed

lemma fallback_pass_scan:
  "fallback_pass geo p tol st = scan (\<lambda>d. d < tol) (sample_cands p (enumerated_faces geo)) st"
  unfolding fallback_pass_def
proof (induction geo arbitrary: st)
  case Nil
  show ?case by simp
next
  case (Cons g geo)
  have "(case g of Solid faces \<Rightarrow> fold (fallback_face_body p tol) faces st | NonSolid cls \<Rightarrow> st)
          = scan (\<lambda>d. d < tol) (sample_cands p (faces_of g)) st"
    by (cases g) (simp_all add: fallback_faces_scan)
  then show ?case
    by (simp add: Cons.IH)
qed


lemma float_lt_trans: "e \<le> d \<Longrightarrow> float_lt d m \<Longrightarrow> float_lt e m"
  by (cases m) auto

lemma float_lt_not: "float_lt a m \<Longrightarrow> \<not> float_lt b m \<Longrightarrow> a < b"
  by (cases m) auto

lemma scan_unchanged:
  "(\<forall>c\<in>set cands. \<not> (float_lt (snd c) (snd st) \<and> ok (snd c))) \<Longrightarrow> scan ok cands st = st"
  by (induction cands arbitrary: st) (auto simp: upd_def)

lemma scan_keeps_below:
  "float_lt d (snd st) \<Longrightarrow> (\<forall>c\<in>set pre. ok (snd c) \<longrightarrow> d < snd c)
     \<Longrightarrow> float_lt d (snd (scan ok pre st))"
  by (induction pre arbitrary: st) (auto simp: upd_def)

lemma scan_first_min:
  assumes "ok d" and "float_lt d (snd st)"
    and "\<forall>c\<in>set pre. ok (snd c) \<longrightarrow> d < snd c"
    and "\<forall>c\<in>set post. ok (snd c) \<longrightarrow> d \<le> snd c"
  shows "scan ok (pre @ (f, d) # post) st = (Some f, Float d)"
proof -
  have "float_lt d (snd (scan ok pre st))"
    using assms(2,3) by (rule scan_keeps_below)
  then have "upd ok (f, d) (scan ok pre st) = (Some f, Float d)"
    using assms(1) by (simp add: upd_def)
  moreover have "scan ok post (Some f, Float d) = (Some f, Float d)"
    using assms(4) by (intro scan_unchanged) auto
  ultimately show ?thesis by simp
qed

lemma scan_cases:
  "scan ok cands st = st' \<Longrightarrow>
     (st' = st \<and> (\<forall>c\<in>set cands. \<not> (float_lt (snd c) (snd st) \<and> ok (snd c)))) \<or>
     (\<exists>c\<in>set cands. st' = (Some (fst c), Float (snd c)) \<and> ok (snd c) \<and> float_lt (snd c) (snd st)
         \<and> (\<forall>c'\<in>set cands. ok (snd c') \<longrightarrow> snd c \<le> snd c'))"
proof (induction cands arbitrary: st)
  case Nil
  then show ?case by simp
next
  case (Cons c cs)
  from Cons.prems have run: "scan ok cs (upd ok c st) = st'" by simp
  show ?case
  proof (cases "float_lt (snd c) (snd st) \<and> ok (snd c)")
    case True
    then have u: "upd ok c st = (Some (fst c), Float (snd c))" by (simp add: upd_def)
    from Cons.IH [OF run] show ?thesis
    proof
      assume "st' = upd ok c st \<and> (\<forall>c'\<in>set cs. \<not> (float_lt (snd c') (snd (upd ok c st)) \<and> ok (snd c')))"
      with u True show ?thesis by (auto simp: not_less)
    next
      assume "\<exists>c2\<in>set cs. st' = (Some (fst c2), Float (snd c2)) \<and> ok (snd c2)
                \<and> float_lt (snd c2) (snd (upd ok c st))
                \<and> (\<forall>c'\<in>set cs. ok (snd c') \<longrightarrow> snd c2 \<le> snd c')"
      then obtain c2 where c2: "c2 \<in> set cs" "st' = (Some (fst c2), Float (snd c2))" "ok (snd c2)"
          "snd c2 < snd c" "\<forall>c'\<in>set cs. ok (snd c') \<longrightarrow> snd c2 \<le> snd c'"
        using u by auto
      have "float_lt (snd c2) (snd st)"
        using True c2(4) float_lt_trans [of "snd c2" "snd c" "snd st"] by simp
      with c2 show ?thesis by auto
    qed
  next
    case False
    then have u: "upd ok c st = st" by (auto simp: upd_def)
    from Cons.IH [OF run] show ?thesis
    proof
      assume "st' = upd ok c st \<and> (\<forall>c'\<in>set cs. \<not> (float_lt (snd c') (snd (upd ok c st)) \<and> ok (snd c')))"
      with u False show ?thesis by auto
    next
      assume "\<exists>c2\<in>set cs. st' = (Some (fst c2), Float (snd c2)) \<and> ok (snd c2)
                \<and> float_lt (snd c2) (snd (upd ok c st))
                \<and> (\<forall>c'\<in>set cs. ok (snd c') \<longrightarrow> snd c2 \<le> snd c')"
      then obtain c2 where c2: "c2 \<in> set cs" "st' = (Some (fst c2), Float (snd c2))" "ok (snd c2)"
          "float_lt (snd c2) (snd st)" "\<forall>c'\<in>set cs. ok (snd c') \<longrightarrow> snd c2 \<le> snd c'"
        using u by auto
      have "ok (snd c) \<longrightarrow> snd c2 \<le> snd c"
        using False c2(4) float_lt_not [of "snd c2" "snd st" "snd c"] by auto
      with c2 show ?thesis by auto
    qed
  qed
qed

lemma in_proj_cands:
  "(f, d) \<in> set (proj_cands p fs) \<longleftrightarrow> f \<in> set fs \<and> (\<exists>r. Project f p = Some r \<and> d = Distance r)"
proof (induction fs)
  case Nil
  show ?case by simp
next
  case (Cons g fs)
  show ?case
    by (cases "Project g p") (auto simp: proj_cands_Cons Cons.IH)
qed

lemma in_sample_cands:
  "(f, d) \<in> set (sample_cands p fs) \<longleftrightarrow>
     f \<in> set fs \<and> is_PlanarFace f \<and> (\<exists>uv\<in>set sample_uvs. d = sample_distance p f uv)"
  by (auto simp: sample_cands_def)

section \<open>Bounding-box overlap\<close>

text \<open>
  C9: \<open>do_bounding_boxes_intersect\<close> is symmetric in its two boxes, and a well-formed
  box (its Min componentwise below its Max) overlaps itself.
\<close>

theorem do_bounding_boxes_intersect_sym_refl:
  "do_bounding_boxes_intersect a b = do_bounding_boxes_intersect b a \<and>
   (well_formed_bbox a \<longrightarrow> do_bounding_boxes_intersect a a)"
  by (auto simp: do_bounding_boxes_intersect_def well_formed_bbox_def)

theorem do_bounding_boxes_intersect_sym_refl_witness:
  "well_formed_bbox unit_box \<and> do_bounding_boxes_intersect unit_box unit_box"
  using do_bounding_boxes_intersect_sym_refl [of unit_box unit_box]
  by (simp add: well_formed_bbox_def unit_box_def)

lemma enumerated_faces_filter_Solid:
  "enumerated_faces (filter is_Solid geo) = enumerated_faces geo"
proof (induction geo)
  case Nil
  show ?case by simp
next
  case (Cons g geo)
  then show ?case by (cases g) simp_all
qed

lemma find_intersecting_face_scan:
  "find_intersecting_face geo p tol =
     (let st = scan (\<lambda>d. True) (proj_cands p (enumerated_faces geo)) (None, FloatInf) in
      if needs_fallback (fst st) (snd st) tol
      then Inr (fst (scan (\<lambda>d. d < tol) (sample_cands p (enumerated_faces geo)) st))
      else Inr (fst st))"
  by (simp add: find_intersecting_face_def primary_pass_scan fallback_pass_scan Let_def
        split: prod.splits)

text \<open>
  C10: both matchers look at solids only: the result over a collection is the result
  over its solid members.
\<close>

theorem matchers_examine_solids_only:
  "find_intersecting_face_based_on_far_end geo p bb base
     = find_intersecting_face_based_on_far_end (filter is_Solid geo) p bb base \<and>
   find_intersecting_face geo p tol = find_intersecting_face (filter is_Solid geo) p tol"
  by (simp add: far_end_scan find_intersecting_face_scan enumerated_faces_filter_Solid Let_def)

lemma far_end_tolerance_spec: "far_end_tolerance b base = effective_tolerance base b"
  by (simp add: far_end_tolerance_def effective_tolerance_def nominal_diameter_def
        reference_threshold_def Let_def)

lemma scan_from_start:
  assumes "scan ok cands (None, FloatInf) = (cf, md)"
  shows "(cf = None \<and> md = FloatInf \<and> (\<forall>c\<in>set cands. \<not> ok (snd c))) \<or>
         (\<exists>c\<in>set cands. cf = Some (fst c) \<and> md = Float (snd c) \<and> ok (snd c)
             \<and> (\<forall>c'\<in>set cands. ok (snd c') \<longrightarrow> snd c \<le> snd c'))"
  using scan_cases [OF assms] by auto

lemma far_end_Some_iff:
  "(\<exists>f. find_intersecting_face_based_on_far_end geo p bb base = Inr (Some f)) \<longleftrightarrow>
   (\<exists>f\<in>set (enumerated_faces geo). \<exists>r. Project f p = Some r \<and> Distance r \<le> far_end_tolerance bb base)"
proof -
  let ?t = "far_end_tolerance bb base"
  let ?cs = "proj_cands p (enumerated_faces geo)"
  obtain cf md where st: "scan (\<lambda>d. d \<le> ?t) ?cs (None, FloatInf) = (cf, md)"
    by (cases "scan (\<lambda>d. d \<le> ?t) ?cs (None, FloatInf)")
  have res: "find_intersecting_face_based_on_far_end geo p bb base = Inr cf"
    by (simp add: far_end_scan st)
  from scan_from_start [OF st] show ?thesis
  proof
    assume a: "cf = None \<and> md = FloatInf \<and> (\<forall>c\<in>set ?cs. \<not> snd c \<le> ?t)"
    have "\<not> (\<exists>f\<in>set (enumerated_faces geo). \<exists>r. Project f p = Some r \<and> Distance r \<le> ?t)"
    proof
      assume "\<exists>f\<in>set (enumerated_faces geo). \<exists>r. Project f p = Some r \<and> Distance r \<le> ?t"
      then obtain f r where "f \<in> set (enumerated_faces geo)" "Project f p = Some r" "Distance r \<le> ?t"
        by blast
      then have "(f, Distance r) \<in> set ?cs" by (auto simp: in_proj_cands)
      with a \<open>Distance r \<le> ?t\<close> show False by force
    qed
    with a res show ?thesis by simp
  next
    assume "\<exists>c\<in>set ?cs. cf = Some (fst c) \<and> md = Float (snd c) \<and> snd c \<le> ?t
              \<and> (\<forall>c'\<in>set ?cs. snd c' \<le> ?t \<longrightarrow> snd c \<le> snd c')"
    then obtain f d where c: "(f, d) \<in> set ?cs" "cf = Some f" "d \<le> ?t" by force
    then have "f \<in> set (enumerated_faces geo) \<and> (\<exists>r. Project f p = Some r \<and> Distance r \<le> ?t)"
      by (auto simp: in_proj_cands)
    with c res show ?thesis by blast
  qed
qed

lemma far_end_Some_D:
  assumes "find_intersecting_face_based_on_far_end geo p bb base = Inr (Some f)"
  shows "f \<in> set (enumerated_faces geo) \<and>
         (\<exists>r. Project f p = Some r \<and> Distance r \<le> far_end_tolerance bb base)"
proof -
  let ?t = "far_end_tolerance bb base"
  let ?cs = "proj_cands p (enumerated_faces geo)"
  obtain cf md where st: "scan (\<lambda>d. d \<le> ?t) ?cs (None, FloatInf) = (cf, md)"
    by (cases "scan (\<lambda>d. d \<le> ?t) ?cs (None, FloatInf)")
  have "cf = Some f"
    using assms by (simp add: far_end_scan st)
  with scan_from_start [OF st]
  obtain c where "c \<in> set ?cs" "fst c = f" "snd c \<le> ?t" by auto
  then have "(f, snd c) \<in> set ?cs" by (cases c) auto
  with \<open>snd c \<le> ?t\<close> show ?thesis by (auto simp: in_proj_cands)
qed


lemma proj_cands_split:
  assumes "Project f p = Some r"
  shows "proj_cands p (pre @ f # post) = proj_cands p pre @ (f, Distance r) # proj_cands p post"
  using assms by (simp add: proj_cands_Cons)

lemma primary_first_min:
  assumes "fs = pre @ f # post" and "Project f p = Some r" and "ok (Distance r)"
    and "\<forall>g\<in>set pre. \<forall>s. Project g p = Some s \<longrightarrow> Distance r < Distance s"
    and "\<forall>g\<in>set post. \<forall>s. Project g p = Some s \<longrightarrow> Distance r \<le> Distance s"
  shows "scan ok (proj_cands p fs) (None, FloatInf) = (Some f, Float (Distance r))"
proof -
  have pre: "\<forall>c\<in>set (proj_cands p pre). ok (snd c) \<longrightarrow> Distance r < snd c"
    using assms(4) by (auto simp: in_proj_cands)
  have post: "\<forall>c\<in>set (proj_cands p post). ok (snd c) \<longrightarrow> Distance r \<le> snd c"
    using assms(5) by (auto simp: in_proj_cands)
  have "scan ok (proj_cands p pre @ (f, Distance r) # proj_cands p post) (None, FloatInf)
          = (Some f, Float (Distance r))"
    using assms(3) _ pre post by (rule scan_first_min) simp
  then show ?thesis
    by (simp add: assms(1) assms(2) proj_cands_Cons)
qed

text \<open>
  C5: the face selected is the one with the smallest projection distance, and among
  faces at that distance the first in the order of enumeration.  Stated for a face
  \<open>f\<close> at distance \<open>Distance r\<close>, with every face before it strictly farther and
  every face after it at least as far: both matchers return \<open>f\<close> when its distance is
  within their tolerance.
\<close>

theorem closest_face_is_first_minimum:
  assumes "enumerated_faces geo = pre @ f # post"
    and "Project f p = Some r"
    and "\<forall>g\<in>set pre. \<forall>s. Project g p = Some s \<longrightarrow> Distance r < Distance s"
    and "\<forall>g\<in>set post. \<forall>s. Project g p = Some s \<longrightarrow> Distance r \<le> Distance s"
  shows "(Distance r \<le> tol \<longrightarrow> find_intersecting_face geo p tol = Inr (Some f)) \<and>
         (Distance r \<le> far_end_tolerance bb base \<longrightarrow>
            find_intersecting_face_based_on_far_end geo p bb base = Inr (Some f))"
proof (intro conjI impI)
  assume "Distance r \<le> tol"
  have "scan (\<lambda>d. True) (proj_cands p (enumerated_faces geo)) (None, FloatInf)
          = (Some f, Float (Distance r))"
    using assms by (intro primary_first_min) auto
  then show "find_intersecting_face geo p tol = Inr (Some f)"
    using \<open>Distance r \<le> tol\<close> by (simp add: find_intersecting_face_scan needs_fallback_def)
next
  assume "Distance r \<le> far_end_tolerance bb base"
  then have "scan (\<lambda>d. d \<le> far_end_tolerance bb base) (proj_cands p (enumerated_faces geo))
               (None, FloatInf) = (Some f, Float (Distance r))"
    using assms by (intro primary_first_min) auto
  then show "find_intersecting_face_based_on_far_end geo p bb base = Inr (Some f)"
    by (simp add: far_end_scan)
qed

lemma enumerated_faces_map_faces:
  "enumerated_faces (map (map_faces h) geo) = map h (enumerated_faces geo)"
proof (induction geo)
  case Nil
  show ?case by simp
next
  case (Cons g geo)
  then show ?case by (cases g) simp_all
qed

lemma proj_cands_map:
  assumes "\<forall>f. Project (h f) = Project f"
  shows "proj_cands p (map h fs) = map (apfst h) (proj_cands p fs)"
proof (induction fs)
  case Nil
  show ?case by simp
next
  case (Cons f fs)
  then show ?case
    using assms by (cases "Project f p") (simp_all add: proj_cands_Cons)
qed

lemma scan_map:
  "scan ok (map (apfst h) cs) (map_option h cf, md) = apfst (map_option h) (scan ok cs (cf, md))"
proof (induction cs arbitrary: cf md)
  case Nil
  show ?case by simp
next
  case (Cons c cs)
  have "upd ok (apfst h c) (map_option h cf, md) = apfst (map_option h) (upd ok c (cf, md))"
    by (simp add: upd_def)
  then show ?case
    using Cons.IH [of "fst (upd ok c (cf, md))" "snd (upd ok c (cf, md))"]
    by (simp add: apfst_def map_prod_def split_beta)
qed

lemma far_end_map_faces:
  assumes "\<forall>f. Project (h f) = Project f"
  shows "find_intersecting_face_based_on_far_end (map (map_faces h) geo) p bb base
           = map_sum id (map_option h) (find_intersecting_face_based_on_far_end geo p bb base)"
  using scan_map [of _ h _ None FloatInf]
  by (simp add: far_end_scan enumerated_faces_map_faces proj_cands_map [OF assms])

text \<open>
  C8: \<open>find_intersecting_face_based_on_far_end\<close> always returns; a face it returns is
  a face of a solid of the collection whose projection distance is at most the scaled
  tolerance; it returns none when no face projects within that tolerance; and it makes
  the projection pass only: replacing every face by one with the same projection
  (other planarity, other samples, other normals) replaces the result in the same way.
\<close>

theorem far_end_postcondition:
  "(\<exists>res. find_intersecting_face_based_on_far_end geo p bb base = Inr res) \<and>
   (\<forall>f. find_intersecting_face_based_on_far_end geo p bb base = Inr (Some f) \<longrightarrow>
        f \<in> set (enumerated_faces geo) \<and>
        (\<exists>r. Project f p = Some r \<and> Distance r \<le> far_end_tolerance bb base)) \<and>
   ((\<forall>f\<in>set (enumerated_faces geo). \<forall>r. Project f p = Some r \<longrightarrow>
        far_end_tolerance bb base < Distance r) \<longrightarrow>
      find_intersecting_face_based_on_far_end geo p bb base = Inr None) \<and>
   (\<forall>h. (\<forall>f. Project (h f) = Project f) \<longrightarrow>
      find_intersecting_face_based_on_far_end (map (map_faces h) geo) p bb base
        = map_sum id (map_option h) (find_intersecting_face_based_on_far_end geo p bb base))"
proof (intro conjI allI impI)
  show "\<exists>res. find_intersecting_face_based_on_far_end geo p bb base = Inr res"
    by (simp add: far_end_scan)
next
  fix f assume "find_intersecting_face_based_on_far_end geo p bb base = Inr (Some f)"
  then show "f \<in> set (enumerated_faces geo)"
    and "\<exists>r. Project f p = Some r \<and> Distance r \<le> far_end_tolerance bb base"
    using far_end_Some_D by blast+
next
  assume far: "\<forall>f\<in>set (enumerated_faces geo). \<forall>r. Project f p = Some r \<longrightarrow>
                 far_end_tolerance bb base < Distance r"
  have "\<not> (\<exists>f. find_intersecting_face_based_on_far_end geo p bb base = Inr (Some f))"
    unfolding far_end_Some_iff using far by force
  moreover obtain res where "find_intersecting_face_based_on_far_end geo p bb base = Inr res"
    by (simp add: far_end_scan)
  ultimately show "find_intersecting_face_based_on_far_end geo p bb base = Inr None"
    by (cases res) auto
next
  fix h :: "Face \<Rightarrow> Face" assume "\<forall>f. Project (h f) = Project f"
  then show "find_intersecting_face_based_on_far_end (map (map_faces h) geo) p bb base
        = map_sum id (map_option h) (find_intersecting_face_based_on_far_end geo p bb base)"
    by (rule far_end_map_faces)
qed

text \<open>
  C2: the tolerance \<open>find_intersecting_face_based_on_far_end\<close> computes is the one of
  the specification: the nominal diameter is the larger of the X-extent and the
  Y-extent of the box, and the tolerance is \<open>base_tolerance * (diameter / threshold)\<close>
  when the diameter exceeds the threshold 0.3937 and \<open>base_tolerance\<close> otherwise.  It
  is the tolerance the matcher applies: a face is found exactly when some face projects
  within it.  Above the threshold a doubled diameter doubles the tolerance.
\<close>

theorem far_end_tolerance_scaling:
  "far_end_tolerance bb base = effective_tolerance base bb \<and>
   ((\<exists>f. find_intersecting_face_based_on_far_end geo p bb base = Inr (Some f)) \<longleftrightarrow>
    (\<exists>f\<in>set (enumerated_faces geo). \<exists>r. Project f p = Some r \<and>
        Distance r \<le> effective_tolerance base bb)) \<and>
   (nominal_diameter bb > reference_threshold \<and> nominal_diameter bb' = 2 * nominal_diameter bb \<longrightarrow>
      far_end_tolerance bb' base = 2 * far_end_tolerance bb base)"
proof (intro conjI impI)
  show "far_end_tolerance bb base = effective_tolerance base bb"
    by (rule far_end_tolerance_spec)
next
  show "(\<exists>f. find_intersecting_face_based_on_far_end geo p bb base = Inr (Some f)) \<longleftrightarrow>
    (\<exists>f\<in>set (enumerated_faces geo). \<exists>r. Project f p = Some r \<and>
        Distance r \<le> effective_tolerance base bb)"
    using far_end_Some_iff [of geo p bb base] by (simp add: far_end_tolerance_spec)
next
  assume a: "nominal_diameter bb > reference_threshold \<and> nominal_diameter bb' = 2 * nominal_diameter bb"
  have "0 < reference_threshold" by (simp add: reference_threshold_def)
  with a have "nominal_diameter bb' > reference_threshold" by simp
  with a show "far_end_tolerance bb' base = 2 * far_end_tolerance bb base"
    by (simp add: far_end_tolerance_spec effective_tolerance_def)
qed

text \<open>
  C4: the test that opens the sampling loop of \<open>find_intersecting_face\<close> holds exactly
  when no face of a solid projects within tolerance.  When it fails, the closest face
  of the projection loop is returned, its projection distance is within tolerance, and
  the sampling data plays no part: replacing every face by one with the same projection
  replaces the result in the same way.
\<close>

theorem fallback_only_without_primary_match:
  "\<exists>closest_face min_distance.
     primary_pass geo p = Inr (closest_face, min_distance) \<and>
     (needs_fallback closest_face min_distance tol \<longleftrightarrow>
        \<not> (\<exists>f\<in>set (enumerated_faces geo). \<exists>r. Project f p = Some r \<and> Distance r \<le> tol)) \<and>
     (\<not> needs_fallback closest_face min_distance tol \<longrightarrow>
        find_intersecting_face geo p tol = Inr closest_face \<and>
        (\<exists>f r. closest_face = Some f \<and> f \<in> set (enumerated_faces geo) \<and>
               Project f p = Some r \<and> Distance r \<le> tol) \<and>
        (\<forall>h. (\<forall>f. Project (h f) = Project f) \<longrightarrow>
           find_intersecting_face (map (map_faces h) geo) p tol = Inr (map_option h closest_face)))"
proof -
  let ?cs = "proj_cands p (enumerated_faces geo)"
  obtain cf md where st: "scan (\<lambda>d. True) ?cs (None, FloatInf) = (cf, md)"
    by (cases "scan (\<lambda>d. True) ?cs (None, FloatInf)")
  have prim: "primary_pass geo p = Inr (cf, md)"
    by (simp add: primary_pass_scan st)
  have guard: "needs_fallback cf md tol \<longleftrightarrow>
          \<not> (\<exists>f\<in>set (enumerated_faces geo). \<exists>r. Project f p = Some r \<and> Distance r \<le> tol)"
    using scan_from_start [OF st]
  proof
    assume a: "cf = None \<and> md = FloatInf \<and> (\<forall>c\<in>set ?cs. \<not> True)"
    then have none: "\<And>f d. (f, d) \<notin> set ?cs" by auto
    have "\<not> (\<exists>f\<in>set (enumerated_faces geo). \<exists>r. Project f p = Some r)"
    proof
      assume "\<exists>f\<in>set (enumerated_faces geo). \<exists>r. Project f p = Some r"
      then obtain f r where "f \<in> set (enumerated_faces geo)" "Project f p = Some r" by blast
      then have "(f, Distance r) \<in> set ?cs" by (auto simp: in_proj_cands)
      with none show False by blast
    qed
    with a show ?thesis by (auto simp: needs_fallback_def)
  next
    assume "\<exists>c\<in>set ?cs. cf = Some (fst c) \<and> md = Float (snd c) \<and> True
               \<and> (\<forall>c'\<in>set ?cs. True \<longrightarrow> snd c \<le> snd c')"
    then obtain f d where c: "(f, d) \<in> set ?cs" "cf = Some f" "md = Float d"
        "\<forall>c'\<in>set ?cs. d \<le> snd c'"
      by force
    show ?thesis
    proof (cases "d \<le> tol")
      case True
      with c(1) have "\<exists>f\<in>set (enumerated_faces geo). \<exists>r. Project f p = Some r \<and> Distance r \<le> tol"
        by (auto simp: in_proj_cands)
      with True c show ?thesis by (simp add: needs_fallback_def)
    next
      case False
      have "\<not> (\<exists>f\<in>set (enumerated_faces geo). \<exists>r. Project f p = Some r \<and> Distance r \<le> tol)"
      proof
        assume "\<exists>g\<in>set (enumerated_faces geo). \<exists>r. Project g p = Some r \<and> Distance r \<le> tol"
        then obtain g r where g: "g \<in> set (enumerated_faces geo)" "Project g p = Some r" "Distance r \<le> tol"
          by blast
        then have "(g, Distance r) \<in> set ?cs" by (auto simp: in_proj_cands)
        with c(4) have "d \<le> Distance r" by force
        with g(3) False show False by simp
      qed
      with False c show ?thesis by (simp add: needs_fallback_def)
    qed
  qed
  have rest: "find_intersecting_face geo p tol = Inr cf \<and>
        (\<exists>f r. cf = Some f \<and> f \<in> set (enumerated_faces geo) \<and>
               Project f p = Some r \<and> Distance r \<le> tol) \<and>
        (\<forall>h. (\<forall>f. Project (h f) = Project f) \<longrightarrow>
           find_intersecting_face (map (map_faces h) geo) p tol = Inr (map_option h cf))"
    if nf: "\<not> needs_fallback cf md tol"
  proof (intro conjI allI impI)
    show "find_intersecting_face geo p tol = Inr cf"
      using nf by (simp add: find_intersecting_face_scan st)
  next
    from nf obtain f d where fd: "cf = Some f" "md = Float d" "d \<le> tol"
      by (cases cf; cases md) (auto simp: needs_fallback_def)
    with scan_from_start [OF st] obtain c where "c \<in> set ?cs" "fst c = f" "snd c = d"
      by auto
    then have "(f, d) \<in> set ?cs" by (cases c) auto
    with fd show "\<exists>f r. cf = Some f \<and> f \<in> set (enumerated_faces geo) \<and>
               Project f p = Some r \<and> Distance r \<le> tol"
      by (auto simp: in_proj_cands)
  next
    fix h :: "Face \<Rightarrow> Face" assume h: "\<forall>f. Project (h f) = Project f"
    have "scan (\<lambda>d. True) (proj_cands p (enumerated_faces (map (map_faces h) geo))) (None, FloatInf)
            = (map_option h cf, md)"
      using scan_map [of "\<lambda>d. True" h ?cs None FloatInf]
      by (simp add: enumerated_faces_map_faces proj_cands_map [OF h] st)
    moreover have "\<not> needs_fallback (map_option h cf) md tol"
      using nf by (simp add: needs_fallback_def)
    ultimately show "find_intersecting_face (map (map_faces h) geo) p tol = Inr (map_option h cf)"
      by (simp add: find_intersecting_face_scan)
  qed
  from prim guard rest show ?thesis by blast
qed

section \<open>Facts about the example geometry\<close>

lemma Project_horizontal_face:
  "Project (horizontal_face i h) p = Some \<lparr>Distance = \<bar>Z p - h\<bar>\<rparr>"
  by (simp add: horizontal_face_def)

lemma Project_face_near: "Project face_near origin = Some \<lparr>Distance = 1/10\<rparr>"
  by (simp add: face_near_def Project_horizontal_face origin_def)

lemma Project_face_tie: "Project face_tie origin = Some \<lparr>Distance = 1/10\<rparr>"
  by (simp add: face_tie_def Project_horizontal_face origin_def)

lemma Project_face_mid: "Project face_mid origin = Some \<lparr>Distance = 15/100\<rparr>"
  by (simp add: face_mid_def Project_horizontal_face origin_def)

lemma Project_face_three_tenths: "Project face_three_tenths origin = Some \<lparr>Distance = 3/10\<rparr>"
  by (simp add: face_three_tenths_def Project_horizontal_face origin_def)

lemma Project_face_half: "Project face_half origin = Some \<lparr>Distance = 1/2\<rparr>"
  by (simp add: face_half_def Project_horizontal_face origin_def)

lemma Project_face_far: "Project face_far origin = Some \<lparr>Distance = 1\<rparr>"
  by (simp add: face_far_def Project_horizontal_face origin_def)

lemma Project_face_five: "Project face_five origin = Some \<lparr>Distance = 5\<rparr>"
  by (simp add: face_five_def Project_horizontal_face origin_def)

lemma Project_sheet: "Project sheet p = None"
  by (simp add: sheet_def curved_face_def)

lemma Project_as_curved: "Project (as_curved f) = Project f"
  by (simp add: as_curved_def)

lemma tolerance_unit_box: "far_end_tolerance unit_box default_tolerance = 2000 / 3937"
  by (simp add: far_end_tolerance_def unit_box_def default_tolerance_def)

lemma tolerance_small_box: "far_end_tolerance small_box default_tolerance = 2/10"
  by (simp add: far_end_tolerance_def small_box_def default_tolerance_def)

lemma sample_distance_horizontal_face:
  "sample_distance p (horizontal_face i h) uv = \<bar>Z p - h\<bar>"
  by (simp add: sample_distance_def horizontal_face_def Subtract_def DotProduct_def)

section \<open>The theorems at concrete geometry\<close>

theorem closest_face_is_first_minimum_witness:
  "find_intersecting_face [Solid [face_mid], NonSolid ''Curve'', Solid [face_near, face_tie]]
      origin default_tolerance = Inr (Some face_near) \<and>
   find_intersecting_face_based_on_far_end
      [Solid [face_mid], NonSolid ''Curve'', Solid [face_near, face_tie]]
      origin unit_box default_tolerance = Inr (Some face_near)"
proof -
  let ?geo = "[Solid [face_mid], NonSolid ''Curve'', Solid [face_near, face_tie]]"
  have h1: "enumerated_faces ?geo = [face_mid] @ face_near # [face_tie]"
    by simp
  have h3: "\<forall>g\<in>set [face_mid]. \<forall>s. Project g origin = Some s \<longrightarrow>
              Distance \<lparr>Distance = 1/10\<rparr> < Distance s"
    by (simp add: Project_face_mid)
  have h4: "\<forall>g\<in>set [face_tie]. \<forall>s. Project g origin = Some s \<longrightarrow>
              Distance \<lparr>Distance = 1/10\<rparr> \<le> Distance s"
    by (simp add: Project_face_tie)
  have d1: "Distance \<lparr>Distance = 1/10\<rparr> \<le> default_tolerance"
    by (simp add: default_tolerance_def)
  have d2: "Distance \<lparr>Distance = 1/10\<rparr> \<le> far_end_tolerance unit_box default_tolerance"
    by (simp add: tolerance_unit_box)
  note t = closest_face_is_first_minimum [OF h1 Project_face_near h3 h4,
      where tol = default_tolerance and bb = unit_box and base = default_tolerance]
  from t d1 d2 show ?thesis by blast
qed

theorem far_end_postcondition_witness:
  "face_half \<in> set (enumerated_faces [NonSolid ''Line'', Solid [face_half]]) \<and>
   (\<exists>r. Project face_half origin = Some r \<and>
        Distance r \<le> far_end_tolerance unit_box default_tolerance) \<and>
   find_intersecting_face_based_on_far_end [NonSolid ''Line'', Solid [face_half]]
      origin small_box default_tolerance = Inr None \<and>
   find_intersecting_face_based_on_far_end
      (map (map_faces as_curved) [NonSolid ''Line'', Solid [face_half]])
      origin unit_box default_tolerance = Inr (Some (as_curved face_half))"
proof -
  let ?geo = "[NonSolid ''Line'', Solid [face_half]]"
  have found: "find_intersecting_face_based_on_far_end ?geo origin unit_box default_tolerance
                 = Inr (Some face_half)"
    by (simp add: far_end_scan proj_cands_Cons Project_face_half upd_def tolerance_unit_box)
  have far: "\<forall>f\<in>set (enumerated_faces ?geo). \<forall>r. Project f origin = Some r \<longrightarrow>
               far_end_tolerance small_box default_tolerance < Distance r"
    by (simp add: Project_face_half tolerance_small_box)
  have same: "\<forall>f. Project (as_curved f) = Project f"
    by (simp add: Project_as_curved)
  note big = far_end_postcondition [of ?geo origin unit_box default_tolerance]
  note small = far_end_postcondition [of ?geo origin small_box default_tolerance]
  from big found have a: "face_half \<in> set (enumerated_faces ?geo) \<and>
        (\<exists>r. Project face_half origin = Some r \<and>
             Distance r \<le> far_end_tolerance unit_box default_tolerance)"
    by blast
  from small far
  have b: "find_intersecting_face_based_on_far_end ?geo origin small_box default_tolerance = Inr None"
    by blast
  from big same
  have "find_intersecting_face_based_on_far_end (map (map_faces as_curved) ?geo) origin unit_box
            default_tolerance
          = map_sum id (map_option as_curved)
              (find_intersecting_face_based_on_far_end ?geo origin unit_box default_tolerance)"
    by blast
  then have c: "find_intersecting_face_based_on_far_end (map (map_faces as_curved) ?geo) origin
                  unit_box default_tolerance = Inr (Some (as_curved face_half))"
    by (simp add: found)
  from a b c show ?thesis by blast
qed


theorem far_end_tolerance_scaling_witness:
  "nominal_diameter unit_box > reference_threshold \<and>
   nominal_diameter double_box = 2 * nominal_diameter unit_box \<and>
   far_end_tolerance double_box default_tolerance = 2 * far_end_tolerance unit_box default_tolerance \<and>
   far_end_tolerance unit_box default_tolerance = effective_tolerance default_tolerance unit_box \<and>
   (\<exists>f. find_intersecting_face_based_on_far_end [Solid [face_three_tenths]] origin unit_box
          default_tolerance = Inr (Some f)) \<and>
   \<not> (\<exists>f. find_intersecting_face_based_on_far_end [Solid [face_three_tenths]] origin small_box
          default_tolerance = Inr (Some f))"
proof -
  let ?geo = "[Solid [face_three_tenths]]"
  have d: "nominal_diameter unit_box > reference_threshold \<and>
           nominal_diameter double_box = 2 * nominal_diameter unit_box"
    by (simp add: nominal_diameter_def reference_threshold_def unit_box_def double_box_def)
  have e1: "effective_tolerance default_tolerance unit_box = 2000 / 3937"
    by (simp add: effective_tolerance_def nominal_diameter_def reference_threshold_def
          unit_box_def default_tolerance_def)
  have e2: "effective_tolerance default_tolerance small_box = 2/10"
    by (simp add: effective_tolerance_def nominal_diameter_def reference_threshold_def
          small_box_def default_tolerance_def)
  have inside: "\<exists>f\<in>set (enumerated_faces ?geo). \<exists>r. Project f origin = Some r \<and>
                  Distance r \<le> effective_tolerance default_tolerance unit_box"
    by (simp add: Project_face_three_tenths e1)
  have outside: "\<not> (\<exists>f\<in>set (enumerated_faces ?geo). \<exists>r. Project f origin = Some r \<and>
                  Distance r \<le> effective_tolerance default_tolerance small_box)"
    by (simp add: Project_face_three_tenths e2)
  note big = far_end_tolerance_scaling [of unit_box default_tolerance ?geo origin double_box]
  note small = far_end_tolerance_scaling [of small_box default_tolerance ?geo origin double_box]
  from big d have a: "far_end_tolerance double_box default_tolerance
                        = 2 * far_end_tolerance unit_box default_tolerance"
    and b: "far_end_tolerance unit_box default_tolerance = effective_tolerance default_tolerance unit_box"
    by blast+
  from big inside have c: "\<exists>f. find_intersecting_face_based_on_far_end ?geo origin unit_box
          default_tolerance = Inr (Some f)"
    by blast
  from small outside have e: "\<not> (\<exists>f. find_intersecting_face_based_on_far_end ?geo origin small_box
          default_tolerance = Inr (Some f))"
    by blast
  from d a b c e show ?thesis by blast
qed

theorem fallback_only_without_primary_match_witness:
  "find_intersecting_face [Solid [sheet, face_near]] origin default_tolerance
     = Inr (Some face_near) \<and>
   find_intersecting_face (map (map_faces as_curved) [Solid [sheet, face_near]])
     origin default_tolerance = Inr (Some (as_curved face_near))"
proof -
  let ?geo = "[Solid [sheet, face_near]]"
  have prim: "primary_pass ?geo origin = Inr (Some face_near, Float (1/10))"
    by (simp add: primary_pass_scan proj_cands_Cons Project_sheet Project_face_near upd_def)
  have nf: "\<not> needs_fallback (Some face_near) (Float (1/10)) default_tolerance"
    by (simp add: needs_fallback_def default_tolerance_def)
  have same: "\<forall>f. Project (as_curved f) = Project f"
    by (simp add: Project_as_curved)
  from fallback_only_without_primary_match [of ?geo origin default_tolerance]
  obtain cf md where a: "primary_pass ?geo origin = Inr (cf, md)"
    and b: "\<not> needs_fallback cf md default_tolerance \<longrightarrow>
        find_intersecting_face ?geo origin default_tolerance = Inr cf \<and>
        (\<exists>f r. cf = Some f \<and> f \<in> set (enumerated_faces ?geo) \<and>
               Project f origin = Some r \<and> Distance r \<le> default_tolerance) \<and>
        (\<forall>h. (\<forall>f. Project (h f) = Project f) \<longrightarrow>
           find_intersecting_face (map (map_faces h) ?geo) origin default_tolerance
             = Inr (map_option h cf))"
    by blast
  from a prim have cf: "cf = Some face_near" and md: "md = Float (1/10)"
    by simp_all
  from b nf cf md
  have c: "find_intersecting_face ?geo origin default_tolerance = Inr (Some face_near)"
    and d: "\<forall>h. (\<forall>f. Project (h f) = Project f) \<longrightarrow>
           find_intersecting_face (map (map_faces h) ?geo) origin default_tolerance
             = Inr (map_option h (Some face_near))"
    by blast+
  from d same
  have "find_intersecting_face (map (map_faces as_curved) ?geo) origin default_tolerance
          = Inr (map_option as_curved (Some face_near))"
    by blast
  then have e: "find_intersecting_face (map (map_faces as_curved) ?geo) origin default_tolerance
                  = Inr (Some (as_curved face_near))"
    by simp
  from c e show ?thesis by (rule conjI)
qed

section \<open>Placement direction\<close>






section \<open>The sampling pass\<close>

lemma proj_cands_all_None:
  "(\<forall>g\<in>set fs. Project g p = None) \<Longrightarrow> proj_cands p fs = []"
  by (induction fs) (simp_all add: proj_cands_Cons)









section \<open>More facts about the example geometry\<close>



lemma planar_face_far: "is_PlanarFace face_far"
  by (simp add: face_far_def horizontal_face_def)

lemma planar_face_five: "is_PlanarFace face_five"
  by (simp add: face_five_def horizontal_face_def)

lemma not_planar_sheet: "\<not> is_PlanarFace sheet"
  by (simp add: sheet_def curved_face_def)


lemma sample_distance_face_far: "sample_distance origin face_far uv = 1"
  by (simp add: face_far_def sample_distance_horizontal_face origin_def)

lemma sample_distance_face_five: "sample_distance origin face_five uv = 5"
  by (simp add: face_five_def sample_distance_horizontal_face origin_def)


lemma sample_uvs_not_Nil: "set sample_uvs \<noteq> {}"
  by (simp add: sample_uvs_def)

lemma horizontal_beyond_tolerance:
  assumes proj: "Project f origin = Some \<lparr>Distance = d\<rparr>" and far: "default_tolerance < d"
    and samples: "\<And>uv. sample_distance origin f uv = d"
    and others: "\<forall>g\<in>set pre. Project g origin = None \<and> \<not> is_PlanarFace g"
  shows "scan (\<lambda>d. True) (proj_cands origin (pre @ [f])) (None, FloatInf) = (Some f, Float d) \<and>
         scan (\<lambda>e. e < default_tolerance) (sample_cands origin (pre @ [f])) (Some f, Float d)
           = (Some f, Float d)"
proof
  have "proj_cands origin pre = []"
    using others by (intro proj_cands_all_None) blast
  then show "scan (\<lambda>d. True) (proj_cands origin (pre @ [f])) (None, FloatInf) = (Some f, Float d)"
    by (simp add: proj_cands_Cons proj upd_def)
next
  have "\<forall>c\<in>set (sample_cands origin (pre @ [f])).
          \<not> (float_lt (snd c) (snd (Some f, Float d)) \<and> snd c < default_tolerance)"
  proof
    fix c assume "c \<in> set (sample_cands origin (pre @ [f]))"
    then have "(fst c, snd c) \<in> set (sample_cands origin (pre @ [f]))" by simp
    then have "fst c \<in> set (pre @ [f])" "is_PlanarFace (fst c)"
      and "\<exists>uv\<in>set sample_uvs. snd c = sample_distance origin (fst c) uv"
      unfolding in_sample_cands by blast+
    with others have "fst c = f" by auto
    with \<open>\<exists>uv\<in>set sample_uvs. snd c = sample_distance origin (fst c) uv\<close>
    have "snd c = d" by (auto simp: samples)
    with far show "\<not> (float_lt (snd c) (snd (Some f, Float d)) \<and> snd c < default_tolerance)"
      by simp
  qed
  then show "scan (\<lambda>e. e < default_tolerance) (sample_cands origin (pre @ [f])) (Some f, Float d)
           = (Some f, Float d)"
    by (rule scan_unchanged)
qed

section \<open>The sampling pass at concrete geometry\<close>



text \<open>
  C1 at a concrete input: one planar face at distance 1 from the point, whose sixteen
  samples are all at distance 1 from their tangent planes, and the tolerance 0.2.  No
  face meets the tolerance in either pass, and \<open>find_intersecting_face\<close> returns the
  face: the closest face of the projection pass is kept when the sampling pass finds
  nothing.
\<close>

theorem find_intersecting_face_keeps_face_beyond_tolerance:
  "Project face_far origin = Some \<lparr>Distance = 1\<rparr> \<and> default_tolerance < 1 \<and>
   set (map (sample_distance origin face_far) sample_uvs) = {1} \<and>
   find_intersecting_face [Solid [face_far]] origin default_tolerance = Inr (Some face_far)"
proof -
  have t: "default_tolerance < 1"
    by (simp add: default_tolerance_def)
  have s: "set (map (sample_distance origin face_far) sample_uvs) = {1}"
    using sample_uvs_not_Nil by (simp add: sample_distance_face_far image_constant_conv)
  have "\<forall>g\<in>set []. Project g origin = None \<and> \<not> is_PlanarFace g"
    by simp
  from horizontal_beyond_tolerance [OF Project_face_far t sample_distance_face_far this]
  have r: "find_intersecting_face [Solid [face_far]] origin default_tolerance = Inr (Some face_far)"
    using t by (simp add: find_intersecting_face_scan needs_fallback_def)
  from Project_face_far t s r show ?thesis by blast
qed


section \<open>Exceptions and faces without a projection\<close>

lemma matchers_never_raise:
  "(\<exists>res. find_intersecting_face_based_on_far_end geo p bb base = Inr res) \<and>
   (\<exists>res. find_intersecting_face geo p tol = Inr res)"
  by (simp add: far_end_scan find_intersecting_face_scan Let_def)

lemma proj_cands_filter:
  "proj_cands p (filter (\<lambda>f. Project f p \<noteq> None) fs) = proj_cands p fs"
proof (induction fs)
  case Nil
  show ?case by simp
next
  case (Cons f fs)
  then show ?case
    by (cases "Project f p") (simp_all add: proj_cands_Cons)
qed

lemma enumerated_faces_without_failing_projection:
  "enumerated_faces (map (without_failing_projection p) geo)
     = filter (\<lambda>f. Project f p \<noteq> None) (enumerated_faces geo)"
proof (induction geo)
  case Nil
  show ?case by simp
next
  case (Cons g geo)
  then show ?case by (cases g) simp_all
qed

lemma failing_projection_is_skipped:
  "find_intersecting_face_based_on_far_end (map (without_failing_projection p) geo) p bb base
     = find_intersecting_face_based_on_far_end geo p bb base \<and>
   primary_pass (map (without_failing_projection p) geo) p = primary_pass geo p"
  by (simp only: far_end_scan primary_pass_scan enumerated_faces_without_failing_projection
        proj_cands_filter)

text \<open>
  C6 at a concrete input: a curve, and a solid with a curved face on which the point
  has no projection followed by a planar face at distance 5, with the tolerance 0.2.
  No exception is raised and the face without a projection is passed over, but no face
  qualifies and \<open>find_intersecting_face\<close> returns the planar face, not none.
\<close>

theorem find_intersecting_face_reports_face_not_none:
  "Project sheet origin = None \<and> Project face_five origin = Some \<lparr>Distance = 5\<rparr> \<and>
   default_tolerance < 5 \<and>
   set (map (sample_distance origin face_five) sample_uvs) = {5} \<and>
   find_intersecting_face [NonSolid ''Curve'', Solid [sheet, face_five]] origin default_tolerance
     = Inr (Some face_five) \<and>
   find_intersecting_face_based_on_far_end [NonSolid ''Curve'', Solid [sheet, face_five]] origin
     small_box default_tolerance = Inr None"
proof -
  have t: "default_tolerance < 5"
    by (simp add: default_tolerance_def)
  have s: "set (map (sample_distance origin face_five) sample_uvs) = {5}"
    using sample_uvs_not_Nil by (simp add: sample_distance_face_five image_constant_conv)
  have "\<forall>g\<in>set [sheet]. Project g origin = None \<and> \<not> is_PlanarFace g"
    by (simp add: Project_sheet not_planar_sheet)
  from horizontal_beyond_tolerance [OF Project_face_five t sample_distance_face_five this]
  have r: "find_intersecting_face [NonSolid ''Curve'', Solid [sheet, face_five]] origin
             default_tolerance = Inr (Some face_five)"
    using t by (simp add: find_intersecting_face_scan needs_fallback_def)
  have n: "find_intersecting_face_based_on_far_end [NonSolid ''Curve'', Solid [sheet, face_five]]
             origin small_box default_tolerance = Inr None"
    by (simp add: far_end_scan proj_cands_Cons Project_sheet Project_face_five upd_def
          tolerance_small_box)
  from Project_sheet Project_face_five t s r n show ?thesis by blast
qed

section \<open>Placement at a zero normal\<close>


end
